theory Spec2Isabelle
  imports Main "HOL-Library.Word"
begin

unbundle bit_operations_syntax

section \<open>JavaScript values and primitives\<close>

text \<open>
  The program is TypeScript. Its numbers are IEEE doubles; every number that the program
  computes is either an integer or \<open>NaN\<close>, so a number is modelled as \<open>NaN\<close> or a
  mathematical integer. The model agrees with the doubles on the safe integers
  (magnitude below \<open>2 ^ 53\<close>), where double arithmetic is exact. The 32-bit operators
  \<open><<\<close>, \<open>>>\<close>, \<open>>>>\<close> and \<open>&\<close> convert their operand to a 32-bit word
  (\<open>NaN\<close> becomes 0) and read the result back signed or unsigned.
  Strings are \<open>char list\<close>.
\<close>



datatype jsnum = NaN | Num int

datatype jsval = Undefined | StrV string | NumV jsnum

text \<open>
  \<open>ToInt32\<close> and \<open>ToUint32\<close> of the language produce the same 32 bits; \<open>sint\<close> and
  \<open>uint\<close> read them back. A shift count is taken modulo 32.
\<close>

definition bits32 :: "jsnum \<Rightarrow> 32 word" where
  "bits32 x = (case x of NaN \<Rightarrow> 0 | Num n \<Rightarrow> word_of_int n)"

definition js_shl :: "jsnum \<Rightarrow> nat \<Rightarrow> jsnum" where
  "js_shl x k = Num (sint (push_bit (k mod 32) (bits32 x)))"

definition js_sar :: "jsnum \<Rightarrow> nat \<Rightarrow> jsnum" where
  "js_sar x k = Num (sint (signed_drop_bit (k mod 32) (bits32 x)))"

definition js_ushr :: "jsnum \<Rightarrow> nat \<Rightarrow> jsnum" where
  "js_ushr x k = Num (uint (drop_bit (k mod 32) (bits32 x)))"

definition js_and :: "jsnum \<Rightarrow> jsnum \<Rightarrow> jsnum" where
  "js_and x y = Num (sint (bits32 x AND bits32 y))"

text \<open>Addition, \<open><=\<close>: anything with \<open>NaN\<close> is \<open>NaN\<close>, respectively false.\<close>

fun js_add :: "jsnum \<Rightarrow> jsnum \<Rightarrow> jsnum" where
  "js_add (Num a) (Num b) = Num (a + b)"
| "js_add _ _ = NaN"

fun js_le :: "jsnum \<Rightarrow> jsnum \<Rightarrow> bool" where
  "js_le (Num a) (Num b) = (a \<le> b)"
| "js_le _ _ = False"

text \<open>
  \<open>parseInt(s, radix)\<close>: leading white space is skipped, then an optional sign; radix 0
  stands for an absent radix, which reads decimal unless the text starts with \<open>0x\<close>;
  the longest prefix of digits of the radix is the value, and no digit at all gives
  \<open>NaN\<close>. Whatever follows the digits is ignored.
\<close>

definition isWhiteSpace :: "char \<Rightarrow> bool" where
  "isWhiteSpace c = (of_char c \<in> {9, 10, 11, 12, 13, 32, 160 :: nat})"

definition digitValue :: "char \<Rightarrow> nat" where
  "digitValue c =
     (let n = of_char c :: nat in
      if 48 \<le> n \<and> n \<le> 57 then n - 48
      else if 97 \<le> n \<and> n \<le> 122 then n - 87
      else if 65 \<le> n \<and> n \<le> 90 then n - 55
      else 36)"

definition parseInt :: "string \<Rightarrow> nat \<Rightarrow> jsnum" where
  "parseInt s radix =
     (let S = dropWhile isWhiteSpace s;
          sign = (if S \<noteq> [] \<and> hd S = CHR ''-'' then - 1 else 1 :: int);
          S1 = (if S \<noteq> [] \<and> (hd S = CHR ''+'' \<or> hd S = CHR ''-'') then tl S else S)
      in if radix \<noteq> 0 \<and> (radix < 2 \<or> 36 < radix) then NaN
         else
           let stripPrefix = (radix = 0 \<or> radix = 16);
               R = (if radix = 0 then 10 else radix);
               hex = (stripPrefix \<and> (take 2 S1 = ''0x'' \<or> take 2 S1 = ''0X''));
               S2 = (if hex then drop 2 S1 else S1);
               R2 = (if hex then 16 else R);
               Z = takeWhile (\<lambda>c. digitValue c < R2) S2
           in if Z = [] then NaN
              else Num (sign * int (foldl (\<lambda>a c. a * R2 + digitValue c) 0 Z)))"

text \<open>\<open>Number.prototype.toString\<close> on an integer: its decimal digits, with a sign.\<close>

definition digitChar :: "nat \<Rightarrow> char" where
  "digitChar d = ''0123456789'' ! d"

fun decimal :: "nat \<Rightarrow> string" where
  "decimal n = (if n < 10 then [digitChar n] else decimal (n div 10) @ [digitChar (n mod 10)])"

declare decimal.simps [simp del]

fun Number_toString :: "jsnum \<Rightarrow> string" where
  "Number_toString NaN = ''NaN''"
| "Number_toString (Num n) = (if n < 0 then CHR ''-'' # decimal (nat (- n)) else decimal (nat n))"

text \<open>\<open>String.prototype.split\<close> at a one-character separator, \<open>Array.prototype.join\<close>.\<close>

fun split_str :: "char \<Rightarrow> string \<Rightarrow> string list" where
  "split_str sep [] = [[]]"
| "split_str sep (c # cs) =
     (if c = sep then [] # split_str sep cs
      else (case split_str sep cs of w # ws \<Rightarrow> (c # w) # ws | [] \<Rightarrow> [[c]]))"

fun join_str :: "string \<Rightarrow> string list \<Rightarrow> string" where
  "join_str sep [] = []"
| "join_str sep [x] = x"
| "join_str sep (x # y # ys) = x @ sep @ join_str sep (y # ys)"

section \<open>Domains\<close>

subsection \<open>Encoding and decoding\<close>

text \<open>
  \<open>IpRange.getDomainValue\<close> folds \<open>(acc << 8) + parseInt(octet, 10)\<close> over the pieces
  between the dots and ends with \<open>>>> 0\<close>; \<open>IpRange.getRangeValue\<close> joins the four
  bytes \<open>(value >> k) & 255\<close> with dots.
\<close>

definition IpRange_getDomainValue :: "string \<Rightarrow> jsnum" where
  "IpRange_getDomainValue v =
     js_ushr (foldl (\<lambda>acc octet. js_add (js_shl acc 8) (parseInt octet 10)) (Num 0)
                (split_str CHR ''.'' v)) 0"

definition IpRange_getRangeValue :: "jsnum \<Rightarrow> string" where
  "IpRange_getRangeValue v =
     join_str ''.'' (map Number_toString
       [js_and (js_sar v 24) (Num 255), js_and (js_sar v 16) (Num 255),
        js_and (js_sar v 8) (Num 255), js_and v (Num 255)])"

text \<open>\<open>PortRange\<close>: \<open>parseInt(value)\<close> and \<open>value.toString()\<close>.\<close>

definition PortRange_getDomainValue :: "string \<Rightarrow> jsnum" where
  "PortRange_getDomainValue v = parseInt v 0"

definition PortRange_getRangeValue :: "jsnum \<Rightarrow> string" where
  "PortRange_getRangeValue v = Number_toString v"

text \<open>
  \<open>Array.prototype.indexOf\<close> gives the first position of the element, or -1;
  reading an array at a position it does not have gives \<open>undefined\<close>.
\<close>

fun indexOf_from :: "'a list \<Rightarrow> 'a \<Rightarrow> int \<Rightarrow> int" where
  "indexOf_from [] x i = - 1"
| "indexOf_from (y # ys) x i = (if y = x then i else indexOf_from ys x (i + 1))"

definition indexOf :: "'a list \<Rightarrow> 'a \<Rightarrow> jsnum" where
  "indexOf xs x = Num (indexOf_from xs x 0)"

fun array_get :: "string list \<Rightarrow> jsnum \<Rightarrow> jsval" where
  "array_get xs NaN = Undefined"
| "array_get xs (Num n) =
     (if 0 \<le> n \<and> n < int (length xs) then StrV (xs ! nat n) else Undefined)"

definition protocolList :: "string list" where
  "protocolList = [''tcp'', ''udp'', ''icmp'']"

definition actionList :: "string list" where
  "actionList = [''allow'', ''discard'']"

definition Protocol_getDomainValue :: "string \<Rightarrow> jsnum" where
  "Protocol_getDomainValue v = indexOf protocolList v"

definition Protocol_getRangeValue :: "jsnum \<Rightarrow> jsval" where
  "Protocol_getRangeValue v = array_get protocolList v"

definition Action_getDomainValue :: "string \<Rightarrow> jsnum" where
  "Action_getDomainValue v = indexOf actionList v"

definition Action_getRangeValue :: "jsnum \<Rightarrow> jsval" where
  "Action_getRangeValue v = array_get actionList v"

subsection \<open>The class Domain and its four subclasses\<close>

text \<open>
  A \<open>Domain\<close> object holds the set of the values still available and the bounds it was
  built from. The field \<open>cls\<close> records the subclass an object belongs to, which selects
  the methods \<open>getDomainValue\<close> and \<open>getRangeValue\<close>.
\<close>

datatype DomainClass = IpRange | PortRange | Protocol | Action

text \<open>The field \<open>end'\<close> is the field \<open>end\<close> of the class.\<close>

record Domain =
  cls :: DomainClass
  availableValuesSet :: "jsnum set"
  start :: jsval
  end' :: jsval

definition Domain_has :: "Domain \<Rightarrow> jsnum \<Rightarrow> bool" where
  "Domain_has d v = (v \<in> availableValuesSet d)"

definition Domain_add :: "Domain \<Rightarrow> jsnum \<Rightarrow> Domain" where
  "Domain_add d v = d\<lparr>availableValuesSet := insert v (availableValuesSet d)\<rparr>"

definition Domain_delete :: "Domain \<Rightarrow> jsnum \<Rightarrow> Domain" where
  "Domain_delete d v = d\<lparr>availableValuesSet := availableValuesSet d - {v}\<rparr>"

fun getDomainValue :: "DomainClass \<Rightarrow> string \<Rightarrow> jsnum" where
  "getDomainValue IpRange v = IpRange_getDomainValue v"
| "getDomainValue PortRange v = PortRange_getDomainValue v"
| "getDomainValue Protocol v = Protocol_getDomainValue v"
| "getDomainValue Action v = Action_getDomainValue v"

fun getRangeValue :: "DomainClass \<Rightarrow> jsnum \<Rightarrow> jsval" where
  "getRangeValue IpRange v = StrV (IpRange_getRangeValue v)"
| "getRangeValue PortRange v = StrV (PortRange_getRangeValue v)"
| "getRangeValue Protocol v = Protocol_getRangeValue v"
| "getRangeValue Action v = Action_getRangeValue v"

text \<open>
  \<open>createRangeSet\<close>: the two range classes run \<open>for (i = first; i <= last; i++) add(i)\<close>,
  the two enumerations add the encoding of every listed name.
\<close>

function IpRange_loop :: "jsnum \<Rightarrow> string \<Rightarrow> Domain \<Rightarrow> Domain" where
  "IpRange_loop i e d =
     (if js_le i (IpRange_getDomainValue e)
      then IpRange_loop (js_add i (Num 1)) e (Domain_add d i)
      else d)"
  by pat_completeness auto
termination
proof (relation "measure (\<lambda>(i, e, d). case (i, IpRange_getDomainValue e) of
                     (Num a, Num b) \<Rightarrow> nat (b + 1 - a) | _ \<Rightarrow> 0)")
  show "wf (measure (\<lambda>(i, e, d). case (i, IpRange_getDomainValue e) of
                     (Num a, Num b) \<Rightarrow> nat (b + 1 - a) | _ \<Rightarrow> 0))"
    by simp
next
  fix i e and d :: Domain
  assume "js_le i (IpRange_getDomainValue e)"
  then show "((js_add i (Num 1), e, Domain_add d i), (i, e, d))
       \<in> measure (\<lambda>(i, e, d). case (i, IpRange_getDomainValue e) of
                     (Num a, Num b) \<Rightarrow> nat (b + 1 - a) | _ \<Rightarrow> 0)"
    by (cases i; cases "IpRange_getDomainValue e") auto
qed

declare IpRange_loop.simps [simp del]

definition IpRange_createRangeSet :: "string \<Rightarrow> string \<Rightarrow> Domain \<Rightarrow> Domain" where
  "IpRange_createRangeSet s e d =
     IpRange_loop (IpRange_getDomainValue s) e (d\<lparr>start := StrV s, end' := StrV e\<rparr>)"

function PortRange_loop :: "jsnum \<Rightarrow> jsnum \<Rightarrow> Domain \<Rightarrow> Domain" where
  "PortRange_loop i e d =
     (if js_le i e then PortRange_loop (js_add i (Num 1)) e (Domain_add d i) else d)"
  by pat_completeness auto
termination
proof (relation "measure (\<lambda>(i, e, d). case (i, e) of
                     (Num a, Num b) \<Rightarrow> nat (b + 1 - a) | _ \<Rightarrow> 0)")
  show "wf (measure (\<lambda>(i, e, d). case (i, e) of
                     (Num a, Num b) \<Rightarrow> nat (b + 1 - a) | _ \<Rightarrow> 0))"
    by simp
next
  fix i e and d :: Domain
  assume "js_le i e"
  then show "((js_add i (Num 1), e, Domain_add d i), (i, e, d))
       \<in> measure (\<lambda>(i, e, d). case (i, e) of
                     (Num a, Num b) \<Rightarrow> nat (b + 1 - a) | _ \<Rightarrow> 0)"
    by (cases i; cases e) auto
qed

declare PortRange_loop.simps [simp del]

definition PortRange_createRangeSet :: "jsnum \<Rightarrow> jsnum \<Rightarrow> Domain \<Rightarrow> Domain" where
  "PortRange_createRangeSet s e d = PortRange_loop s e d"

definition Protocol_createRangeSet :: "string list \<Rightarrow> Domain \<Rightarrow> Domain" where
  "Protocol_createRangeSet lst d =
     foldl (\<lambda>d protocol. Domain_add d (Protocol_getDomainValue protocol)) d lst"

definition Action_createRangeSet :: "string list \<Rightarrow> Domain \<Rightarrow> Domain" where
  "Action_createRangeSet lst d =
     foldl (\<lambda>d action. Domain_add d (Action_getDomainValue action)) d lst"

text \<open>
  The constructors. \<open>Domain\<close>'s constructor starts from the empty set; given a list it
  calls \<open>createRangeSet\<close> on it, otherwise it stores the two bounds and calls
  \<open>createRangeSet\<close> on them.
\<close>

definition Domain_init :: "DomainClass \<Rightarrow> Domain" where
  "Domain_init c = \<lparr>cls = c, availableValuesSet = {}, start = Undefined, end' = Undefined\<rparr>"

definition IpRange_new :: "string \<Rightarrow> string \<Rightarrow> Domain" where
  "IpRange_new s e =
     IpRange_createRangeSet s e ((Domain_init IpRange)\<lparr>start := StrV s, end' := StrV e\<rparr>)"

definition PortRange_new :: "jsnum \<Rightarrow> jsnum \<Rightarrow> Domain" where
  "PortRange_new s e =
     PortRange_createRangeSet s e ((Domain_init PortRange)\<lparr>start := NumV s, end' := NumV e\<rparr>)"

definition Protocol_new :: Domain where
  "Protocol_new = Protocol_createRangeSet protocolList (Domain_init Protocol)"

definition Action_new :: Domain where
  "Action_new = Action_createRangeSet actionList (Domain_init Action)"


section \<open>Nodes, edges and the object store\<close>


text \<open>The type tag of a node, and the text of it that the error message shows.\<close>

datatype NodeType = source_ip | destination_ip | source_port | destination_port | protocol | action

fun NodeType_str :: "NodeType \<Rightarrow> string" where
  "NodeType_str source_ip = ''source_ip''"
| "NodeType_str destination_ip = ''destination_ip''"
| "NodeType_str source_port = ''source_port''"
| "NodeType_str destination_port = ''destination_port''"
| "NodeType_str protocol = ''protocol''"
| "NodeType_str action = ''action''"

text \<open>
  Nodes and Domains are objects that edges and nodes refer to, and a Domain handed to a
  node's constructor may be referred to from elsewhere. Objects therefore live in a store
  and are named by their position in it.
\<close>

type_synonym ref = nat

text \<open>
  The classes \<open>Edge\<close>, \<open>NonTerminalNode\<close> and \<open>TerminalNode\<close>. A field of a record is
  a global name, so the fields \<open>type\<close>, \<open>domain\<close> and \<open>value\<close> that the classes share
  carry a prefix here; \<open>edge_value\<close> is the field \<open>value\<close> of an edge.
\<close>

record Edge =
  source :: ref
  target :: ref
  edge_value :: string

record NonTerminalNode =
  nt_type :: NodeType
  nt_domain :: ref
  edges :: "Edge list"

record TerminalNode =
  t_type :: NodeType
  t_domain :: ref
  t_value :: jsval

datatype Node = NonTerminal NonTerminalNode | Terminal TerminalNode

record heap =
  domains :: "Domain list"
  nodes :: "Node list"

text \<open>Following a reference; \<open>None\<close> when the store has no such object.\<close>

definition lookup :: "'a list \<Rightarrow> ref \<Rightarrow> 'a option" where
  "lookup xs r = (if r < length xs then Some (xs ! r) else None)"

text \<open>
  \<open>ValueNotAvailableError\<close> carries its message, the node and the raw value.
  \<open>TypeError\<close> is what the language gives when \<open>addEdge\<close> is called on an object that
  has no such method (a terminal node) or whose Domain is not an object; the type checker
  rejects such calls, so they are not in a compiled program.
\<close>

datatype error = ValueNotAvailableError string ref jsval | TypeError

definition ValueNotAvailableError_new :: "ref \<Rightarrow> NodeType \<Rightarrow> string \<Rightarrow> error" where
  "ValueNotAvailableError_new node ty v =
     ValueNotAvailableError (''Value '' @ v @ '' is not available in node domain '' @ NodeType_str ty)
       node (StrV v)"

text \<open>
  \<open>addEdge\<close> returns the outcome together with the store as it is when the call ends.
\<close>

definition NonTerminalNode_addEdge :: "ref \<Rightarrow> Edge \<Rightarrow> heap \<Rightarrow> (error + unit) \<times> heap" where
  "NonTerminalNode_addEdge this edge h =
     (case lookup (nodes h) this of
        Some (NonTerminal n) \<Rightarrow>
          (case lookup (domains h) (nt_domain n) of
             Some d \<Rightarrow>
               (let v = edge_value edge in
                if \<not> Domain_has d (getDomainValue (cls d) v)
                then (Inl (ValueNotAvailableError_new this (nt_type n) v), h)
                else (Inr (),
                      h\<lparr>domains := (domains h)[nt_domain n :=
                                      Domain_delete d (getDomainValue (cls d) v)],
                        nodes := (nodes h)[this := NonTerminal (n\<lparr>edges := edges n @ [edge]\<rparr>)]\<rparr>))
           | None \<Rightarrow> (Inl TypeError, h))
      | _ \<Rightarrow> (Inl TypeError, h))"

text \<open>
  \<open>new\<close>: the object is appended to the store and its position is the reference. The
  node classes pass their arguments to the constructor of their base class;
  \<open>ProtocolNode\<close> and \<open>ActionNode\<close> construct their own Domain first.
\<close>

definition Domain_alloc :: "Domain \<Rightarrow> heap \<Rightarrow> ref \<times> heap" where
  "Domain_alloc d h = (length (domains h), h\<lparr>domains := domains h @ [d]\<rparr>)"

definition NonTerminalNode_new :: "NodeType \<Rightarrow> ref \<Rightarrow> heap \<Rightarrow> ref \<times> heap" where
  "NonTerminalNode_new ty dref h =
     (length (nodes h),
      h\<lparr>nodes := nodes h @ [NonTerminal \<lparr>nt_type = ty, nt_domain = dref, edges = []\<rparr>]\<rparr>)"

definition TerminalNode_new :: "NodeType \<Rightarrow> ref \<Rightarrow> jsval \<Rightarrow> heap \<Rightarrow> ref \<times> heap" where
  "TerminalNode_new ty dref v h =
     (length (nodes h),
      h\<lparr>nodes := nodes h @ [Terminal \<lparr>t_type = ty, t_domain = dref, t_value = v\<rparr>]\<rparr>)"

definition SourceIpNode_new :: "ref \<Rightarrow> heap \<Rightarrow> ref \<times> heap" where
  "SourceIpNode_new dref h = NonTerminalNode_new source_ip dref h"

definition DestinationIpNode_new :: "ref \<Rightarrow> heap \<Rightarrow> ref \<times> heap" where
  "DestinationIpNode_new dref h = NonTerminalNode_new destination_ip dref h"

definition SourcePortNode_new :: "ref \<Rightarrow> heap \<Rightarrow> ref \<times> heap" where
  "SourcePortNode_new dref h = NonTerminalNode_new source_port dref h"

definition DestinationPortNode_new :: "ref \<Rightarrow> heap \<Rightarrow> ref \<times> heap" where
  "DestinationPortNode_new dref h = NonTerminalNode_new destination_port dref h"

definition ProtocolNode_new :: "heap \<Rightarrow> ref \<times> heap" where
  "ProtocolNode_new h = (case Domain_alloc Protocol_new h of (d, h1) \<Rightarrow> NonTerminalNode_new protocol d h1)"

definition ActionNode_new :: "string \<Rightarrow> heap \<Rightarrow> ref \<times> heap" where
  "ActionNode_new v h = (case Domain_alloc Action_new h of (d, h1) \<Rightarrow> TerminalNode_new action d (StrV v) h1)"

text \<open>
  A sequence of \<open>addEdge\<close> calls, each on any node; a call that throws leaves the store
  as it was and the sequence goes on.
\<close>

fun addEdges :: "(ref \<times> Edge) list \<Rightarrow> heap \<Rightarrow> heap" where
  "addEdges [] h = h"
| "addEdges ((n, e) # cs) h = addEdges cs (snd (NonTerminalNode_addEdge n e h))"


section \<open>Notions used by the statements\<close>

text \<open>
  The admissible external values of each class: a dotted quad of four bytes, a port, a
  listed protocol name, a listed action name. Bytes and ports are written the way
  \<open>toString\<close> writes a number: in decimal, with no sign, leading zero or space.
  (\<open>parseInt\<close> reads other spellings of the same number too; those are decoded to this
  spelling, not to themselves.) A port is a safe integer.
\<close>

definition dottedQuad :: "nat \<Rightarrow> nat \<Rightarrow> nat \<Rightarrow> nat \<Rightarrow> string" where
  "dottedQuad a b c d = decimal a @ ''.'' @ decimal b @ ''.'' @ decimal c @ ''.'' @ decimal d"

inductive admissible :: "DomainClass \<Rightarrow> string \<Rightarrow> bool" where
  quad: "a < 256 \<Longrightarrow> b < 256 \<Longrightarrow> c < 256 \<Longrightarrow> d < 256 \<Longrightarrow> admissible IpRange (dottedQuad a b c d)"
| port: "n < 2 ^ 53 \<Longrightarrow> admissible PortRange (decimal n)"
| protocol_name: "v \<in> set protocolList \<Longrightarrow> admissible Protocol v"
| action_name: "v \<in> set actionList \<Longrightarrow> admissible Action v"

text \<open>The 32-bit number that four bytes make, the first byte the most significant.\<close>

definition quadValue :: "nat \<Rightarrow> nat \<Rightarrow> nat \<Rightarrow> nat \<Rightarrow> int" where
  "quadValue a b c d = int a * 16777216 + int b * 65536 + int c * 256 + int d"

text \<open>The names an enumeration lists; the range classes list none.\<close>

fun listedNames :: "DomainClass \<Rightarrow> string list" where
  "listedNames Protocol = protocolList"
| "listedNames Action = actionList"
| "listedNames IpRange = []"
| "listedNames PortRange = []"

text \<open>
  \<open>shrunk_from d d0\<close>: the Domain \<open>d\<close> is \<open>d0\<close> after some deletions, the only change
  that \<open>addEdge\<close> makes to a Domain.
\<close>

definition shrunk_from :: "Domain \<Rightarrow> Domain \<Rightarrow> bool" where
  "shrunk_from d d0 = (cls d = cls d0 \<and> availableValuesSet d \<subseteq> availableValuesSet d0)"

text \<open>The decoded values of the edges of a non-terminal node, in the order of its edge list.\<close>

definition decodedValues :: "heap \<Rightarrow> ref \<Rightarrow> jsnum list option" where
  "decodedValues h n =
     (case lookup (nodes h) n of
        Some (NonTerminal nd) \<Rightarrow>
          (case lookup (domains h) (nt_domain nd) of
             Some d \<Rightarrow> Some (map (\<lambda>e. getDomainValue (cls d) (edge_value e)) (edges nd))
           | None \<Rightarrow> None)
      | _ \<Rightarrow> None)"

text \<open>
  The invariant behind consumption: node \<open>n\<close> is a non-terminal node on Domain \<open>dref\<close>,
  the decoded values of its edges are pairwise distinct, and none of them is available.
\<close>

definition consumed_inv :: "heap \<Rightarrow> ref \<Rightarrow> ref \<Rightarrow> bool" where
  "consumed_inv h n dref =
     (\<exists>nd d. lookup (nodes h) n = Some (NonTerminal nd) \<and> nt_domain nd = dref
        \<and> lookup (domains h) dref = Some d
        \<and> distinct (map (\<lambda>e. getDomainValue (cls d) (edge_value e)) (edges nd))
        \<and> (\<forall>e \<in> set (edges nd). \<not> Domain_has d (getDomainValue (cls d) (edge_value e))))"

text \<open>The integers that a double holds exactly.\<close>

definition isSafeInteger :: "int \<Rightarrow> bool" where
  "isSafeInteger n = (- (2 ^ 53) < n \<and> n < 2 ^ 53)"

text \<open>Every Domain reference held by a node of the store names a Domain of the store.\<close>

fun node_domain :: "Node \<Rightarrow> ref" where
  "node_domain (NonTerminal n) = nt_domain n"
| "node_domain (Terminal t) = t_domain t"

definition references_valid :: "heap \<Rightarrow> bool" where
  "references_valid h = list_all (\<lambda>n. node_domain n < length (domains h)) (nodes h)"

section \<open>The example graph\<close>

text \<open>
  The address, protocol and action objects of the example at the end of the source:
  Domain 0 and node 0 are \<open>sourceIpRange\<close> and \<open>sourceIpNode\<close>, Domain 1 and node 1
  belong to \<open>tcpProtocolNode\<close>, Domain 2 and node 2 to \<open>allowActionNode\<close>.
\<close>

definition empty_heap :: heap where
  "empty_heap = \<lparr>domains = [], nodes = []\<rparr>"

definition example_range :: Domain where
  "example_range = IpRange_new ''109.230.37.1'' ''109.230.37.10''"

definition example_heap :: heap where
  "example_heap =
    (case Domain_alloc example_range empty_heap of (sourceIpRange, h1) \<Rightarrow>
     case SourceIpNode_new sourceIpRange h1 of (sourceIpNode, h2) \<Rightarrow>
     case ProtocolNode_new h2 of (tcpProtocolNode, h3) \<Rightarrow>
     case ActionNode_new ''accept'' h3 of (allowActionNode, h4) \<Rightarrow> h4)"

definition example_edge :: Edge where
  "example_edge = \<lparr>source = 0, target = 1, edge_value = ''109.230.37.1''\<rparr>"

section \<open>Properties of the primitives\<close>

lemma digitChar_cases:
  "d < 10 \<Longrightarrow> digitChar d \<in> set ''0123456789''"
proof -
  assume "d < 10"
  then have "d \<in> {0, 1, 2, 3, 4, 5, 6, 7, 8, 9}" by auto
  then show ?thesis by (auto simp add: digitChar_def)
qed

lemma digitValue_digitChar: "d < 10 \<Longrightarrow> digitValue (digitChar d) = d"
proof -
  assume "d < 10"
  then have "d \<in> {0, 1, 2, 3, 4, 5, 6, 7, 8, 9}" by auto
  then show ?thesis by (auto simp add: digitChar_def digitValue_def)
qed

lemma decimal_chars: "c \<in> set (decimal n) \<Longrightarrow> c \<in> set ''0123456789''"
proof (induction n rule: decimal.induct)
  case (1 n)
  show ?case
  proof (cases "n < 10")
    case True
    with "1.prems" show ?thesis
      using digitChar_cases [of n] by (simp add: decimal.simps [of n])
  next
    case False
    with "1.prems" have "c \<in> set (decimal (n div 10)) \<or> c = digitChar (n mod 10)"
      by (auto simp add: decimal.simps [of n])
    then show ?thesis
      using "1.IH" False digitChar_cases [of "n mod 10"] by auto
  qed
qed

lemma decimal_nonempty: "decimal n \<noteq> []"
  by (simp add: decimal.simps [of n])

lemma dec_digit_props:
  "c \<in> set ''0123456789'' \<Longrightarrow>
     digitValue c < 10 \<and> \<not> isWhiteSpace c \<and> c \<noteq> CHR ''+'' \<and> c \<noteq> CHR ''-''
     \<and> c \<noteq> CHR ''.'' \<and> c \<noteq> CHR ''x'' \<and> c \<noteq> CHR ''X''"
  by (auto simp add: digitValue_def isWhiteSpace_def)

lemma foldl_decimal: "foldl (\<lambda>a c. a * 10 + digitValue c) 0 (decimal n) = n"
proof (induction n rule: decimal.induct)
  case (1 n)
  show ?case
  proof (cases "n < 10")
    case True
    then show ?thesis by (simp add: decimal.simps [of n] digitValue_digitChar)
  next
    case False
    then show ?thesis
      using "1.IH" by (simp add: decimal.simps [of n] digitValue_digitChar)
  qed
qed

lemma decimal_scan:
  "dropWhile isWhiteSpace (decimal n) = decimal n"
  "hd (decimal n) \<noteq> CHR ''+''" "hd (decimal n) \<noteq> CHR ''-''"
  "takeWhile (\<lambda>c. digitValue c < 10) (decimal n) = decimal n"
  "take 2 (decimal n) \<noteq> ''0x''" "take 2 (decimal n) \<noteq> ''0X''"
proof -
  have all: "\<forall>c \<in> set (decimal n). c \<in> set ''0123456789''"
    using decimal_chars by blast
  obtain c cs where cs: "decimal n = c # cs"
    using decimal_nonempty [of n] by (cases "decimal n") auto
  have c: "c \<in> set ''0123456789''" using all cs by simp
  show "dropWhile isWhiteSpace (decimal n) = decimal n"
    using dec_digit_props [OF c] cs by simp
  show "hd (decimal n) \<noteq> CHR ''+''" "hd (decimal n) \<noteq> CHR ''-''"
    using dec_digit_props [OF c] cs by simp_all
  show "takeWhile (\<lambda>c. digitValue c < 10) (decimal n) = decimal n"
    using all dec_digit_props by (simp add: takeWhile_eq_all_conv)
  have x: "CHR ''x'' \<notin> set (decimal n)" "CHR ''X'' \<notin> set (decimal n)"
    using all dec_digit_props by blast+
  have sub: "set (take 2 (decimal n)) \<subseteq> set (decimal n)" by (rule set_take_subset)
  show "take 2 (decimal n) \<noteq> ''0x''"
  proof
    assume "take 2 (decimal n) = ''0x''"
    then have "CHR ''x'' \<in> set (take 2 (decimal n))" by simp
    with sub x show False by blast
  qed
  show "take 2 (decimal n) \<noteq> ''0X''"
  proof
    assume "take 2 (decimal n) = ''0X''"
    then have "CHR ''X'' \<in> set (take 2 (decimal n))" by simp
    with sub x show False by blast
  qed
qed

lemma parseInt_decimal_10: "parseInt (decimal n) 10 = Num (int n)"
  by (simp add: parseInt_def decimal_scan decimal_nonempty foldl_decimal)

lemma parseInt_decimal_0: "parseInt (decimal n) 0 = Num (int n)"
  by (simp add: parseInt_def decimal_scan decimal_nonempty foldl_decimal)

lemma split_str_nosep: "sep \<notin> set w \<Longrightarrow> split_str sep w = [w]"
  by (induction w) auto

lemma split_str_append:
  "sep \<notin> set w \<Longrightarrow> split_str sep (w @ sep # rest) = w # split_str sep rest"
  by (induction w) auto

lemma dot_notin_decimal: "CHR ''.'' \<notin> set (decimal n)"
  using decimal_chars dec_digit_props by blast

lemma split_dottedQuad:
  "split_str CHR ''.'' (dottedQuad a b c d) = [decimal a, decimal b, decimal c, decimal d]"
  by (simp add: dottedQuad_def split_str_append split_str_nosep dot_notin_decimal)

lemma sar_and_255:
  "k \<le> 24 \<Longrightarrow> (signed_drop_bit k w AND 255 :: 32 word) = drop_bit k w AND 255"
proof -
  assume k: "k \<le> 24"
  have m: "(255 :: 32 word) = mask 8" by (simp add: mask_eq_exp_minus_1)
  show ?thesis unfolding m
    by (rule bit_word_eqI) (use k in \<open>auto simp add: bit_simps\<close>)
qed

lemma sint_and_255: "sint (x AND 255 :: 32 word) = uint x mod 256"
proof -
  have m: "(255 :: 32 word) = mask 8" by (simp add: mask_eq_exp_minus_1)
  have a: "x AND 255 = take_bit 8 x" unfolding m by (simp add: take_bit_eq_mask)
  have "sint (take_bit 8 x) = take_bit 8 (sint x)"
    by (simp add: signed_take_bit_eq)
  also have "\<dots> = take_bit 8 (signed_take_bit 31 (uint x))"
    by (simp add: sint_uint)
  also have "\<dots> = take_bit 8 (uint x)"
    by (simp add: take_bit_signed_take_bit)
  finally show ?thesis using a by (simp add: take_bit_eq_mod)
qed

lemma uint_drop: "uint (drop_bit k (word_of_int v :: 32 word)) = (v mod 2 ^ 32) div 2 ^ k"
proof -
  have "uint (word_of_int v :: 32 word) < 2 ^ 32"
    using uint_lt2p [of "word_of_int v :: 32 word"] by simp
  then have "take_bit 32 (uint (word_of_int v :: 32 word)) = uint (word_of_int v :: 32 word)"
    by (simp add: take_bit_int_eq_self)
  then have "uint (drop_bit k (word_of_int v :: 32 word)) = drop_bit k (uint (word_of_int v :: 32 word))"
    by (simp add: unsigned_drop_bit_eq)
  also have "\<dots> = (v mod 2 ^ 32) div 2 ^ k"
    by (simp only: uint_word_of_int drop_bit_eq_div) simp
  finally show ?thesis .
qed

lemma octet_of:
  "k \<le> 24 \<Longrightarrow> js_and (js_sar (Num v) k) (Num 255) = Num (((v mod 2 ^ 32) div 2 ^ k) mod 256)"
  by (simp add: js_and_def js_sar_def bits32_def sar_and_255 sint_and_255 uint_drop)

lemma octet_low: "js_and (Num v) (Num 255) = Num (v mod 256)"
proof -
  have "(v mod 2 ^ 32) mod 256 = v mod 256"
    by (rule mod_mod_cancel) simp
  then show ?thesis
    by (simp add: js_and_def bits32_def sint_and_255 uint_word_of_int)
qed

lemma shl_add: "js_ushr (js_add (js_shl (Num x) 8) (Num d)) 0 = Num ((x * 256 + d) mod 2 ^ 32)"
proof -
  have "(word_of_int (sint (push_bit 8 (word_of_int x :: 32 word)) + d) :: 32 word)
        = word_of_int (x * 256 + d)"
    by (simp add: push_bit_eq_mult)
  then have "uint (word_of_int (sint (push_bit 8 (word_of_int x :: 32 word)) + d) :: 32 word)
        = (x * 256 + d) mod 2 ^ 32"
    by (simp only: uint_word_of_int) simp
  then show ?thesis
    by (simp add: js_ushr_def js_shl_def bits32_def)
qed

lemma shl_small: "0 \<le> x \<Longrightarrow> x < 2 ^ 23 \<Longrightarrow> js_shl (Num x) 8 = Num (x * 256)"
proof -
  assume b: "0 \<le> x" "x < 2 ^ 23"
  have "sint (push_bit 8 (word_of_int x :: 32 word)) = sint (word_of_int (x * 256) :: 32 word)"
    by (simp add: push_bit_eq_mult)
  also have "\<dots> = signed_take_bit 31 (x * 256)"
    by (simp only: sint_sbintrunc') simp
  also have "\<dots> = x * 256"
    by (rule signed_take_bit_int_eq_self) (use b in auto)
  finally show ?thesis by (simp add: js_shl_def bits32_def)
qed

lemma mod_256_low: "0 \<le> r \<Longrightarrow> r < 256 \<Longrightarrow> (q * 256 + r) mod 256 = (r :: int)"
  by simp

lemma IpRange_encode_quad:
  assumes "a < 256" "b < 256" "c < 256" "d < 256"
  shows "IpRange_getDomainValue (dottedQuad a b c d) = Num (quadValue a b c d)"
proof -
  have s1: "js_shl (Num 0) 8 = Num 0" by (simp add: shl_small)
  have s2: "js_shl (Num (int a)) 8 = Num (int a * 256)"
    using assms by (simp add: shl_small)
  have s3: "js_shl (Num (int a * 256 + int b)) 8 = Num ((int a * 256 + int b) * 256)"
    using assms by (simp add: shl_small)
  have "IpRange_getDomainValue (dottedQuad a b c d)
        = js_ushr (js_add (js_shl (Num ((int a * 256 + int b) * 256 + int c)) 8) (Num (int d))) 0"
    by (simp add: IpRange_getDomainValue_def split_dottedQuad parseInt_decimal_10 s1 s2 s3)
  also have "\<dots> = Num ((((int a * 256 + int b) * 256 + int c) * 256 + int d) mod 2 ^ 32)"
    by (rule shl_add)
  also have "(((int a * 256 + int b) * 256 + int c) * 256 + int d) mod 2 ^ 32 = quadValue a b c d"
    using assms by (simp add: quadValue_def)
  finally show ?thesis .
qed

lemma IpRange_decode_quad:
  assumes "a < 256" "b < 256" "c < 256" "d < 256"
  shows "IpRange_getRangeValue (Num (quadValue a b c d)) = dottedQuad a b c d"
proof -
  let ?v = "quadValue a b c d"
  have r: "0 \<le> ?v" "?v < 2 ^ 32" using assms by (simp_all add: quadValue_def)
  then have m: "?v mod 2 ^ 32 = ?v" by simp
  have d1: "?v = int a * 2 ^ 24 + (int b * 65536 + int c * 256 + int d)"
    by (simp add: quadValue_def)
  have d2: "?v = (int a * 256 + int b) * 2 ^ 16 + (int c * 256 + int d)"
    by (simp add: quadValue_def)
  have d3: "?v = ((int a * 256 + int b) * 256 + int c) * 2 ^ 8 + int d"
    by (simp add: quadValue_def)
  have "?v div 2 ^ 24 = int a"
    unfolding d1 using assms by (simp add: div_pos_pos_trivial)
  then have o1: "(?v div 2 ^ 24) mod 256 = int a" using assms by simp
  have "?v div 2 ^ 16 = int a * 256 + int b"
    unfolding d2 using assms by (simp add: div_pos_pos_trivial)
  then have o2: "(?v div 2 ^ 16) mod 256 = int b" using assms by simp
  have e3: "?v div 2 ^ 8 = (int a * 256 + int b) * 256 + int c"
    unfolding d3 using assms by (simp add: div_pos_pos_trivial)
  have "((int a * 256 + int b) * 256 + int c) mod 256 = int c"
    using assms by (intro mod_256_low) simp_all
  then have o3: "(?v div 2 ^ 8) mod 256 = int c" by (simp only: e3)
  have d4: "?v = ((int a * 256 + int b) * 256 + int c) * 256 + int d"
    by (simp add: quadValue_def)
  have o4: "?v mod 256 = int d"
    unfolding d4 using assms by (intro mod_256_low) simp_all
  have "js_and (js_sar (Num ?v) 24) (Num 255) = Num (((?v mod 2 ^ 32) div 2 ^ 24) mod 256)"
    by (rule octet_of) simp
  then have p1: "js_and (js_sar (Num ?v) 24) (Num 255) = Num (int a)"
    by (simp only: m o1)
  have "js_and (js_sar (Num ?v) 16) (Num 255) = Num (((?v mod 2 ^ 32) div 2 ^ 16) mod 256)"
    by (rule octet_of) simp
  then have p2: "js_and (js_sar (Num ?v) 16) (Num 255) = Num (int b)"
    by (simp only: m o2)
  have "js_and (js_sar (Num ?v) 8) (Num 255) = Num (((?v mod 2 ^ 32) div 2 ^ 8) mod 256)"
    by (rule octet_of) simp
  then have p3: "js_and (js_sar (Num ?v) 8) (Num 255) = Num (int c)"
    by (simp only: m o3)
  have p4: "js_and (Num ?v) (Num 255) = Num (int d)"
    by (simp only: octet_low o4)
  show ?thesis
    unfolding IpRange_getRangeValue_def p1 p2 p3 p4
    by (simp add: dottedQuad_def)
qed

section \<open>Populating a Domain\<close>

lemma PortRange_loop_fields:
  "cls (PortRange_loop i e d) = cls d \<and> start (PortRange_loop i e d) = start d
   \<and> end' (PortRange_loop i e d) = end' d"
proof (induction i e d rule: PortRange_loop.induct)
  case (1 i e d)
  then show ?case
    by (cases "js_le i e") (simp_all add: PortRange_loop.simps [of i e d] Domain_add_def)
qed

lemma PortRange_loop_set:
  "availableValuesSet (PortRange_loop (Num a) (Num b) d) = availableValuesSet d \<union> Num ` {a..b}"
proof (induction "nat (b + 1 - a)" arbitrary: a d)
  case 0
  then have "\<not> a \<le> b" by simp
  then show ?case by (simp add: PortRange_loop.simps [of "Num a" "Num b" d])
next
  case (Suc k)
  then have le: "a \<le> b" and k: "k = nat (b + 1 - (a + 1))" by simp_all
  have "{a..b} = insert a {a + 1..b}" using le by auto
  then have "Num ` {a..b} = insert (Num a) (Num ` {a + 1..b})" by simp
  then show ?case
    using le Suc.hyps(1) [OF k, of "Domain_add d (Num a)"]
    by (simp add: PortRange_loop.simps [of "Num a" "Num b" d] Domain_add_def)
qed

lemma PortRange_new_set:
  "availableValuesSet (PortRange_new (Num s) (Num e)) = Num ` {s..e}"
  by (simp add: PortRange_new_def PortRange_createRangeSet_def PortRange_loop_set Domain_init_def)

lemma PortRange_new_cls: "cls (PortRange_new s e) = PortRange"
  by (simp add: PortRange_new_def PortRange_createRangeSet_def PortRange_loop_fields Domain_init_def)

lemma IpRange_loop_fields:
  "cls (IpRange_loop i e d) = cls d \<and> start (IpRange_loop i e d) = start d
   \<and> end' (IpRange_loop i e d) = end' d"
proof (induction i e d rule: IpRange_loop.induct)
  case (1 i e d)
  then show ?case
    by (cases "js_le i (IpRange_getDomainValue e)")
      (simp_all add: IpRange_loop.simps [of i e d] Domain_add_def)
qed

lemma IpRange_loop_set:
  "IpRange_getDomainValue e = Num b \<Longrightarrow>
   availableValuesSet (IpRange_loop (Num a) e d) = availableValuesSet d \<union> Num ` {a..b}"
proof (induction "nat (b + 1 - a)" arbitrary: a d)
  case 0
  then have "\<not> a \<le> b" by simp
  then show ?case using "0.prems" by (simp add: IpRange_loop.simps [of "Num a" e d])
next
  case (Suc k)
  then have le: "a \<le> b" and k: "k = nat (b + 1 - (a + 1))" by simp_all
  have "{a..b} = insert a {a + 1..b}" using le by auto
  then have "Num ` {a..b} = insert (Num a) (Num ` {a + 1..b})" by simp
  then show ?case
    using le Suc.hyps(1) [OF k Suc.prems, of "Domain_add d (Num a)"] Suc.prems
    by (simp add: IpRange_loop.simps [of "Num a" e d] Domain_add_def)
qed

lemma IpRange_new_set:
  "IpRange_getDomainValue s = Num a \<Longrightarrow> IpRange_getDomainValue e = Num b \<Longrightarrow>
   availableValuesSet (IpRange_new s e) = Num ` {a..b}"
  by (simp add: IpRange_new_def IpRange_createRangeSet_def IpRange_loop_set Domain_init_def)

lemma IpRange_new_cls: "cls (IpRange_new s e) = IpRange"
  by (simp add: IpRange_new_def IpRange_createRangeSet_def IpRange_loop_fields Domain_init_def)

lemma enum_sets:
  "availableValuesSet Protocol_new = {Num 0, Num 1, Num 2}"
  "availableValuesSet Action_new = {Num 0, Num 1}"
  by (auto simp add: Protocol_new_def Protocol_createRangeSet_def protocolList_def Domain_add_def
      Domain_init_def Protocol_getDomainValue_def indexOf_def
      Action_new_def Action_createRangeSet_def actionList_def Action_getDomainValue_def)

lemma enum_cls: "cls Protocol_new = Protocol" "cls Action_new = Action"
  by (simp_all add: Protocol_new_def Protocol_createRangeSet_def protocolList_def Domain_add_def
      Domain_init_def Action_new_def Action_createRangeSet_def actionList_def)

lemma indexOf_from_missing: "x \<notin> set xs \<Longrightarrow> indexOf_from xs x i = - 1"
  by (induction xs arbitrary: i) auto

lemma unlisted_encodes_minus_1:
  "v \<notin> set (listedNames k) \<Longrightarrow> k = Protocol \<or> k = Action \<Longrightarrow> getDomainValue k v = Num (- 1)"
  by (auto simp add: Protocol_getDomainValue_def Action_getDomainValue_def indexOf_def
      indexOf_from_missing)

lemma cls_Domain_delete: "cls (Domain_delete d v) = cls d"
  by (simp add: Domain_delete_def)

lemma not_has_Domain_delete: "\<not> Domain_has (Domain_delete d v) v"
  by (simp add: Domain_delete_def Domain_has_def)

lemma roundtrip_admissible:
  assumes "admissible k v"
  shows "getRangeValue k (getDomainValue k v) = StrV v"
  using assms
proof cases
  case (quad a b c d)
  then show ?thesis by (simp add: IpRange_encode_quad IpRange_decode_quad)
next
  case (port n)
  then show ?thesis
    by (simp add: PortRange_getDomainValue_def PortRange_getRangeValue_def parseInt_decimal_0)
next
  case protocol_name
  then show ?thesis
    by (auto simp add: protocolList_def Protocol_getDomainValue_def Protocol_getRangeValue_def
        indexOf_def)
next
  case action_name
  then show ?thesis
    by (auto simp add: actionList_def Action_getDomainValue_def Action_getRangeValue_def
        indexOf_def)
qed

section \<open>What addEdge changes and what it keeps\<close>

lemma lookup_append_new: "lookup (xs @ [x]) (length xs) = Some x"
  by (simp add: lookup_def)

lemma addEdge_cases:
  "snd (NonTerminalNode_addEdge n e h) = h \<or>
   (\<exists>nd d. lookup (nodes h) n = Some (NonTerminal nd)
      \<and> lookup (domains h) (nt_domain nd) = Some d
      \<and> Domain_has d (getDomainValue (cls d) (edge_value e))
      \<and> snd (NonTerminalNode_addEdge n e h) =
          h\<lparr>domains := (domains h)[nt_domain nd :=
                          Domain_delete d (getDomainValue (cls d) (edge_value e))],
            nodes := (nodes h)[n := NonTerminal (nd\<lparr>edges := edges nd @ [e]\<rparr>)]\<rparr>)"
  by (auto simp add: NonTerminalNode_addEdge_def Let_def split: option.splits Node.splits)

lemma addEdge_domain:
  assumes "lookup (domains h) r = Some d"
  shows "\<exists>d'. lookup (domains (snd (NonTerminalNode_addEdge n e h))) r = Some d'
           \<and> cls d' = cls d \<and> availableValuesSet d' \<subseteq> availableValuesSet d"
  using addEdge_cases [of n e h] assms
  by (auto simp add: lookup_def nth_list_update Domain_delete_def split: if_splits)

lemma addEdge_nonterminal:
  assumes "lookup (nodes h) m = Some (NonTerminal nd)"
  shows "\<exists>nd'. lookup (nodes (snd (NonTerminalNode_addEdge n e h))) m = Some (NonTerminal nd')
           \<and> nt_domain nd' = nt_domain nd \<and> nt_type nd' = nt_type nd"
  using addEdge_cases [of n e h] assms
  by (auto simp add: lookup_def nth_list_update split: if_splits)

lemma addEdge_terminal:
  assumes "lookup (nodes h) m = Some (Terminal t)"
  shows "lookup (nodes (snd (NonTerminalNode_addEdge n e h))) m = Some (Terminal t)"
  using addEdge_cases [of n e h] assms
  by (auto simp add: lookup_def nth_list_update split: if_splits)

lemma addEdge_on_terminal:
  "lookup (nodes h) m = Some (Terminal t) \<Longrightarrow> NonTerminalNode_addEdge m e h = (Inl TypeError, h)"
  by (simp add: NonTerminalNode_addEdge_def)

lemma addEdges_domain:
  "lookup (domains h) r = Some d \<Longrightarrow>
   \<exists>d'. lookup (domains (addEdges cs h)) r = Some d'
           \<and> cls d' = cls d \<and> availableValuesSet d' \<subseteq> availableValuesSet d"
proof (induction cs arbitrary: h d)
  case Nil
  then show ?case by simp
next
  case (Cons c cs)
  obtain n e where c: "c = (n, e)" by (cases c)
  from addEdge_domain [OF Cons.prems, of n e] obtain d1 where
    d1: "lookup (domains (snd (NonTerminalNode_addEdge n e h))) r = Some d1"
      "cls d1 = cls d" "availableValuesSet d1 \<subseteq> availableValuesSet d"
    by blast
  from Cons.IH [OF d1(1)] d1(2,3) show ?case
    unfolding c by fastforce
qed

lemma addEdges_nonterminal:
  "lookup (nodes h) m = Some (NonTerminal nd) \<Longrightarrow>
   \<exists>nd'. lookup (nodes (addEdges cs h)) m = Some (NonTerminal nd')
           \<and> nt_domain nd' = nt_domain nd \<and> nt_type nd' = nt_type nd"
proof (induction cs arbitrary: h nd)
  case Nil
  then show ?case by simp
next
  case (Cons c cs)
  obtain n e where c: "c = (n, e)" by (cases c)
  from addEdge_nonterminal [OF Cons.prems, of n e] obtain nd1 where
    n1: "lookup (nodes (snd (NonTerminalNode_addEdge n e h))) m = Some (NonTerminal nd1)"
      "nt_domain nd1 = nt_domain nd" "nt_type nd1 = nt_type nd"
    by blast
  from Cons.IH [OF n1(1)] n1(2,3) show ?case
    unfolding c by fastforce
qed

lemma addEdges_terminal:
  "lookup (nodes h) m = Some (Terminal t) \<Longrightarrow> lookup (nodes (addEdges cs h)) m = Some (Terminal t)"
proof (induction cs arbitrary: h)
  case Nil
  then show ?case by simp
next
  case (Cons c cs)
  obtain n e where c: "c = (n, e)" by (cases c)
  from addEdge_terminal [OF Cons.prems, of n e] Cons.IH show ?case
    unfolding c by simp
qed

lemma consumed_inv_step:
  assumes "consumed_inv h n dref"
  shows "consumed_inv (snd (NonTerminalNode_addEdge m e h)) n dref"
proof -
  from assms obtain nd d where inv:
    "lookup (nodes h) n = Some (NonTerminal nd)" "nt_domain nd = dref"
    "lookup (domains h) dref = Some d"
    "distinct (map (\<lambda>e. getDomainValue (cls d) (edge_value e)) (edges nd))"
    "\<forall>e \<in> set (edges nd). \<not> Domain_has d (getDomainValue (cls d) (edge_value e))"
    unfolding consumed_inv_def by blast
  from addEdge_cases [of m e h] show ?thesis
  proof
    assume "snd (NonTerminalNode_addEdge m e h) = h"
    with assms show ?thesis by simp
  next
    assume "\<exists>nd d. lookup (nodes h) m = Some (NonTerminal nd)
      \<and> lookup (domains h) (nt_domain nd) = Some d
      \<and> Domain_has d (getDomainValue (cls d) (edge_value e))
      \<and> snd (NonTerminalNode_addEdge m e h) =
          h\<lparr>domains := (domains h)[nt_domain nd :=
                          Domain_delete d (getDomainValue (cls d) (edge_value e))],
            nodes := (nodes h)[m := NonTerminal (nd\<lparr>edges := edges nd @ [e]\<rparr>)]\<rparr>"
    then obtain nm dm where step:
      "lookup (nodes h) m = Some (NonTerminal nm)"
      "lookup (domains h) (nt_domain nm) = Some dm"
      "Domain_has dm (getDomainValue (cls dm) (edge_value e))"
      "snd (NonTerminalNode_addEdge m e h) =
          h\<lparr>domains := (domains h)[nt_domain nm :=
                          Domain_delete dm (getDomainValue (cls dm) (edge_value e))],
            nodes := (nodes h)[m := NonTerminal (nm\<lparr>edges := edges nm @ [e]\<rparr>)]\<rparr>"
      by blast
    show ?thesis
    proof (cases "m = n")
      case True
      with inv step have same: "nm = nd" "dm = d" by simp_all
      have fresh: "getDomainValue (cls d) (edge_value e)
            \<notin> set (map (\<lambda>e. getDomainValue (cls d) (edge_value e)) (edges nd))"
        using inv(5) step(3) same by auto
      show ?thesis
        unfolding consumed_inv_def step(4)
        using inv same True fresh
        by (auto simp add: lookup_def nth_list_update Domain_delete_def Domain_has_def split: if_splits)
    next
      case False
      show ?thesis
        unfolding consumed_inv_def step(4)
        using inv step(1,2) False
        by (auto simp add: lookup_def nth_list_update Domain_delete_def Domain_has_def split: if_splits)
    qed
  qed
qed

lemma consumed_inv_addEdges:
  "consumed_inv h n dref \<Longrightarrow> consumed_inv (addEdges cs h) n dref"
proof (induction cs arbitrary: h)
  case Nil
  then show ?case by simp
next
  case (Cons c cs)
  obtain m e where c: "c = (m, e)" by (cases c)
  from Cons.IH [OF consumed_inv_step [OF Cons.prems, of m e]] show ?case
    unfolding c by simp
qed

lemma consumed_inv_new:
  "dref < length (domains h) \<Longrightarrow>
   consumed_inv (snd (NonTerminalNode_new ty dref h)) (fst (NonTerminalNode_new ty dref h)) dref"
  by (simp add: consumed_inv_def NonTerminalNode_new_def lookup_append_new) (simp add: lookup_def)

lemma addEdge_throws:
  assumes "lookup (nodes h) n = Some (NonTerminal nd)"
    and "lookup (domains h) (nt_domain nd) = Some d"
    and "\<not> Domain_has d (getDomainValue (cls d) (edge_value e))"
  shows "NonTerminalNode_addEdge n e h =
    (Inl (ValueNotAvailableError
           (''Value '' @ edge_value e @ '' is not available in node domain ''
              @ NodeType_str (nt_type nd))
           n (StrV (edge_value e))), h)"
  using assms by (simp add: NonTerminalNode_addEdge_def ValueNotAvailableError_new_def Let_def)

lemma addEdge_domain_untouched:
  assumes "\<forall>m nd. lookup (nodes h) m = Some (NonTerminal nd) \<longrightarrow> nt_domain nd \<noteq> r"
  shows "lookup (domains (snd (NonTerminalNode_addEdge n e h))) r = lookup (domains h) r
    \<and> (\<forall>m nd. lookup (nodes (snd (NonTerminalNode_addEdge n e h))) m = Some (NonTerminal nd)
          \<longrightarrow> nt_domain nd \<noteq> r)"
  using addEdge_cases [of n e h] assms
  by (auto simp add: lookup_def nth_list_update split: if_splits)

lemma addEdges_domain_untouched:
  "\<forall>m nd. lookup (nodes h) m = Some (NonTerminal nd) \<longrightarrow> nt_domain nd \<noteq> r \<Longrightarrow>
   lookup (domains (addEdges cs h)) r = lookup (domains h) r"
proof (induction cs arbitrary: h)
  case Nil
  then show ?case by simp
next
  case (Cons c cs)
  obtain n e where c: "c = (n, e)" by (cases c)
  from addEdge_domain_untouched [OF Cons.prems, of n e] Cons.IH show ?case
    unfolding c by simp
qed

lemma references_valid_nth:
  "references_valid h \<Longrightarrow> m < length (nodes h) \<Longrightarrow> node_domain (nodes h ! m) < length (domains h)"
  by (simp add: references_valid_def list_all_length)

lemma ActionNode_new_heap:
  "ActionNode_new v h =
     (length (nodes h),
      h\<lparr>domains := domains h @ [Action_new],
        nodes := nodes h @ [Terminal \<lparr>t_type = action, t_domain = length (domains h),
                                      t_value = StrV v\<rparr>]\<rparr>)"
  by (simp add: ActionNode_new_def Domain_alloc_def TerminalNode_new_def)

lemma addEdge_succeeds:
  assumes "lookup (nodes h) n = Some (NonTerminal nd)"
    and "lookup (domains h) (nt_domain nd) = Some d"
    and "Domain_has d (getDomainValue (cls d) (edge_value e))"
  shows "NonTerminalNode_addEdge n e h =
    (Inr (),
     h\<lparr>domains := (domains h)[nt_domain nd :=
                     Domain_delete d (getDomainValue (cls d) (edge_value e))],
       nodes := (nodes h)[n := NonTerminal (nd\<lparr>edges := edges nd @ [e]\<rparr>)]\<rparr>)"
  using assms by (simp add: NonTerminalNode_addEdge_def Let_def)

section \<open>The example graph, evaluated\<close>

lemma quad_109_1: "''109.230.37.1'' = dottedQuad 109 230 37 1"
  by (simp add: dottedQuad_def decimal.simps digitChar_def)

lemma quad_109_10: "''109.230.37.10'' = dottedQuad 109 230 37 10"
  by (simp add: dottedQuad_def decimal.simps digitChar_def)

lemma quad_109_11: "''109.230.37.11'' = dottedQuad 109 230 37 11"
  by (simp add: dottedQuad_def decimal.simps digitChar_def)

lemma enc_109_1: "IpRange_getDomainValue ''109.230.37.1'' = Num 1843799297"
  unfolding quad_109_1 by (simp add: IpRange_encode_quad quadValue_def)

lemma enc_109_10: "IpRange_getDomainValue ''109.230.37.10'' = Num 1843799306"
  unfolding quad_109_10 by (simp add: IpRange_encode_quad quadValue_def)

lemma enc_109_11: "IpRange_getDomainValue ''109.230.37.11'' = Num 1843799307"
  unfolding quad_109_11 by (simp add: IpRange_encode_quad quadValue_def)

lemma example_range_set: "availableValuesSet example_range = Num ` {1843799297..1843799306}"
  unfolding example_range_def by (rule IpRange_new_set [OF enc_109_1 enc_109_10])

lemma example_range_cls: "cls example_range = IpRange"
  by (simp add: example_range_def IpRange_new_cls)

lemma example_nodes:
  "nodes example_heap =
     [NonTerminal \<lparr>nt_type = source_ip, nt_domain = 0, edges = []\<rparr>,
      NonTerminal \<lparr>nt_type = protocol, nt_domain = 1, edges = []\<rparr>,
      Terminal \<lparr>t_type = action, t_domain = 2, t_value = StrV ''accept''\<rparr>]"
  by (simp add: example_heap_def empty_heap_def Domain_alloc_def SourceIpNode_new_def
      NonTerminalNode_new_def ProtocolNode_new_def ActionNode_new_def TerminalNode_new_def)

lemma example_domains:
  "domains example_heap = [example_range, Protocol_new, Action_new]"
  by (simp add: example_heap_def empty_heap_def Domain_alloc_def SourceIpNode_new_def
      NonTerminalNode_new_def ProtocolNode_new_def ActionNode_new_def TerminalNode_new_def)

lemma quad_zero: "''0.0.0.0'' = dottedQuad 0 0 0 0"
  by (simp add: dottedQuad_def decimal.simps digitChar_def)

lemma quad_ones: "''255.255.255.255'' = dottedQuad 255 255 255 255"
  by (simp add: dottedQuad_def decimal.simps digitChar_def)

lemma quad_192: "''192.168.1.10'' = dottedQuad 192 168 1 10"
  by (simp add: dottedQuad_def decimal.simps digitChar_def)

lemma quad_109_2: "''109.230.37.2'' = dottedQuad 109 230 37 2"
  by (simp add: dottedQuad_def decimal.simps digitChar_def)

lemma enc_109_2: "IpRange_getDomainValue ''109.230.37.2'' = Num 1843799298"
  unfolding quad_109_2 by (simp add: IpRange_encode_quad quadValue_def)

lemma example_valid: "references_valid example_heap"
  by (simp add: references_valid_def example_nodes example_domains)

lemma quad_192_1: "''192.168.1.1'' = dottedQuad 192 168 1 1"
  by (simp add: dottedQuad_def decimal.simps digitChar_def)

lemma quad_192_255: "''192.168.1.255'' = dottedQuad 192 168 1 255"
  by (simp add: dottedQuad_def decimal.simps digitChar_def)

lemma enc_192_1: "IpRange_getDomainValue ''192.168.1.1'' = Num 3232235777"
  unfolding quad_192_1 by (simp add: IpRange_encode_quad quadValue_def)

lemma enc_192_255: "IpRange_getDomainValue ''192.168.1.255'' = Num 3232236031"
  unfolding quad_192_255 by (simp add: IpRange_encode_quad quadValue_def)

lemma enc_192_10: "IpRange_getDomainValue ''192.168.1.10'' = Num 3232235786"
  unfolding quad_192 by (simp add: IpRange_encode_quad quadValue_def)

lemma enc_192_010: "IpRange_getDomainValue ''192.168.01.10'' = IpRange_getDomainValue ''192.168.1.10''"
  by (simp add: IpRange_getDomainValue_def parseInt_def isWhiteSpace_def digitValue_def)

lemma dec_192_10: "IpRange_getRangeValue (Num 3232235786) = ''192.168.1.10''"
proof -
  have "IpRange_getRangeValue (Num (quadValue 192 168 1 10)) = dottedQuad 192 168 1 10"
    by (rule IpRange_decode_quad) simp_all
  then show ?thesis by (simp add: quadValue_def quad_192)
qed

lemma enc_port_080: "PortRange_getDomainValue ''080'' = Num 80"
  by (simp add: PortRange_getDomainValue_def parseInt_def isWhiteSpace_def digitValue_def)

lemma dec_port_80: "PortRange_getRangeValue (Num 80) = ''80''"
  by (simp add: PortRange_getRangeValue_def decimal.simps digitChar_def)

section \<open>The claims\<close>

text \<open>
  Claim C1. A non-terminal node is constructed on an existing Domain, in any store; then any
  finite sequence of \<open>addEdge\<close> calls runs, each on any node of the store and each
  succeeding or throwing. Afterwards the decoded values of the edges of that node are
  pairwise distinct: at most one edge leaves the node for a given decoded value.
\<close>

theorem edges_decode_distinct:
  assumes "dref < length (domains h)"
  shows "\<exists>vs. decodedValues (addEdges cs (snd (NonTerminalNode_new ty dref h)))
                 (fst (NonTerminalNode_new ty dref h)) = Some vs \<and> distinct vs"
proof -
  have "consumed_inv (addEdges cs (snd (NonTerminalNode_new ty dref h)))
          (fst (NonTerminalNode_new ty dref h)) dref"
    by (rule consumed_inv_addEdges [OF consumed_inv_new [OF assms]])
  then show ?thesis
    unfolding consumed_inv_def decodedValues_def by auto
qed

text \<open>
  At a concrete input: on the example address range, inserting \<open>109.230.37.1\<close>, the same
  value again and then \<open>109.230.37.2\<close> leaves two edges, with distinct decoded values.
\<close>

theorem edges_decode_distinct_witness:
  "0 < length (domains (snd (Domain_alloc example_range empty_heap)))
   \<and> decodedValues
        (addEdges [(0, example_edge), (0, example_edge),
                   (0, \<lparr>source = 0, target = 1, edge_value = ''109.230.37.2''\<rparr>)]
           (snd (NonTerminalNode_new source_ip 0 (snd (Domain_alloc example_range empty_heap)))))
        (fst (NonTerminalNode_new source_ip 0 (snd (Domain_alloc example_range empty_heap))))
       = Some [Num 1843799297, Num 1843799298]
   \<and> distinct [Num 1843799297, Num 1843799298]"
proof -
  let ?h = "snd (Domain_alloc example_range empty_heap)"
  let ?eb = "\<lparr>source = 0, target = 1, edge_value = ''109.230.37.2''\<rparr>"
  let ?cs = "[(0, example_edge), (0, example_edge), (0, ?eb)]"
  let ?da = "Domain_delete example_range (Num 1843799297)"
  let ?db = "Domain_delete ?da (Num 1843799298)"
  let ?ha = "\<lparr>domains = [example_range],
              nodes = [NonTerminal \<lparr>nt_type = source_ip, nt_domain = 0, edges = []\<rparr>]\<rparr>"
  let ?hb = "\<lparr>domains = [?da],
              nodes = [NonTerminal \<lparr>nt_type = source_ip, nt_domain = 0,
                                     edges = [example_edge]\<rparr>]\<rparr>"
  let ?hc = "\<lparr>domains = [?db],
              nodes = [NonTerminal \<lparr>nt_type = source_ip, nt_domain = 0,
                                     edges = [example_edge, ?eb]\<rparr>]\<rparr>"
  have l: "0 < length (domains ?h)"
    by (simp add: Domain_alloc_def empty_heap_def)
  have h0: "snd (NonTerminalNode_new source_ip 0 ?h) = ?ha"
    "fst (NonTerminalNode_new source_ip 0 ?h) = 0"
    by (simp_all add: NonTerminalNode_new_def Domain_alloc_def empty_heap_def)
  have v1: "getDomainValue (cls example_range) (edge_value example_edge) = Num 1843799297"
    by (simp add: example_range_cls example_edge_def enc_109_1)
  have v1': "getDomainValue (cls ?da) (edge_value example_edge) = Num 1843799297"
    by (simp add: cls_Domain_delete v1)
  have v2: "getDomainValue (cls ?da) ''109.230.37.2'' = Num 1843799298"
    by (simp add: cls_Domain_delete example_range_cls enc_109_2)
  have a1: "Domain_has example_range (Num 1843799297)"
    by (simp add: Domain_has_def example_range_set)
  have a2: "\<not> Domain_has ?da (Num 1843799297)"
    by (rule not_has_Domain_delete)
  have a3: "Domain_has ?da (Num 1843799298)"
    by (simp add: Domain_has_def Domain_delete_def example_range_set)
  have s1: "snd (NonTerminalNode_addEdge 0 example_edge ?ha) = ?hb"
    by (subst addEdge_succeeds [where nd = "\<lparr>nt_type = source_ip, nt_domain = 0, edges = []\<rparr>"
          and d = example_range])
      (simp_all add: lookup_def a1 v1)
  have s2: "snd (NonTerminalNode_addEdge 0 example_edge ?hb) = ?hb"
    by (subst addEdge_throws [where nd = "\<lparr>nt_type = source_ip, nt_domain = 0,
            edges = [example_edge]\<rparr>" and d = ?da])
      (simp_all add: lookup_def a2 v1')
  have s3: "snd (NonTerminalNode_addEdge 0 ?eb ?hb) = ?hc"
    by (subst addEdge_succeeds [where nd = "\<lparr>nt_type = source_ip, nt_domain = 0,
            edges = [example_edge]\<rparr>" and d = ?da])
      (simp_all add: lookup_def a3 v2)
  have run: "addEdges ?cs ?ha = ?hc"
    by (simp only: addEdges.simps s1 s2 s3)
  have ev: "decodedValues (addEdges ?cs (snd (NonTerminalNode_new source_ip 0 ?h)))
              (fst (NonTerminalNode_new source_ip 0 ?h))
            = Some [Num 1843799297, Num 1843799298]"
    unfolding h0 run
    by (simp add: decodedValues_def lookup_def cls_Domain_delete example_range_cls
        example_edge_def enc_109_1 enc_109_2)
  from edges_decode_distinct [OF l, of ?cs source_ip] obtain vs where
    "decodedValues (addEdges ?cs (snd (NonTerminalNode_new source_ip 0 ?h)))
       (fst (NonTerminalNode_new source_ip 0 ?h)) = Some vs" and "distinct vs"
    by blast
  with ev have "distinct [Num 1843799297, Num 1843799298 :: jsnum]" by simp
  with l ev show ?thesis by blast
qed

text \<open>
  Claim C2. When the decoded value of the edge is available in the Domain of the node,
  \<open>addEdge\<close> returns without error, the edge list of the node is the former list with
  the edge appended as its last element, and the Domain of the node is the former Domain
  with the decoded value deleted, so that \<open>has\<close> is false for it afterwards.
\<close>

theorem addEdge_available:
  assumes "lookup (nodes h) n = Some (NonTerminal nd)"
    and "lookup (domains h) (nt_domain nd) = Some d"
    and "Domain_has d (getDomainValue (cls d) (edge_value e))"
  shows "fst (NonTerminalNode_addEdge n e h) = Inr ()
    \<and> lookup (nodes (snd (NonTerminalNode_addEdge n e h))) n
        = Some (NonTerminal (nd\<lparr>edges := edges nd @ [e]\<rparr>))
    \<and> lookup (domains (snd (NonTerminalNode_addEdge n e h))) (nt_domain nd)
        = Some (Domain_delete d (getDomainValue (cls d) (edge_value e)))
    \<and> \<not> Domain_has (Domain_delete d (getDomainValue (cls d) (edge_value e)))
          (getDomainValue (cls (Domain_delete d (getDomainValue (cls d) (edge_value e))))
             (edge_value e))"
  using assms
  by (auto simp add: NonTerminalNode_addEdge_def lookup_def cls_Domain_delete
      not_has_Domain_delete split: if_splits)

text \<open>At a concrete input: the first insertion of the example of the source.\<close>

theorem addEdge_available_witness:
  "lookup (nodes example_heap) 0
     = Some (NonTerminal \<lparr>nt_type = source_ip, nt_domain = 0, edges = []\<rparr>)
   \<and> lookup (domains example_heap) 0 = Some example_range
   \<and> Domain_has example_range (getDomainValue (cls example_range) (edge_value example_edge))
   \<and> fst (NonTerminalNode_addEdge 0 example_edge example_heap) = Inr ()
   \<and> lookup (nodes (snd (NonTerminalNode_addEdge 0 example_edge example_heap))) 0
        = Some (NonTerminal \<lparr>nt_type = source_ip, nt_domain = 0, edges = [example_edge]\<rparr>)
   \<and> lookup (domains (snd (NonTerminalNode_addEdge 0 example_edge example_heap))) 0
        = Some (Domain_delete example_range (Num 1843799297))
   \<and> \<not> Domain_has (Domain_delete example_range (Num 1843799297)) (Num 1843799297)"
proof -
  let ?nd = "\<lparr>nt_type = source_ip, nt_domain = 0, edges = []\<rparr>"
  have v: "getDomainValue (cls example_range) (edge_value example_edge) = Num 1843799297"
    by (simp add: example_range_cls example_edge_def enc_109_1)
  have n: "lookup (nodes example_heap) 0 = Some (NonTerminal ?nd)"
    by (simp add: example_nodes lookup_def)
  have d: "lookup (domains example_heap) (nt_domain ?nd) = Some example_range"
    by (simp add: example_domains lookup_def)
  have a: "Domain_has example_range (getDomainValue (cls example_range) (edge_value example_edge))"
    unfolding v by (simp add: Domain_has_def example_range_set)
  from addEdge_available [OF n d a] n d a show ?thesis
    by (simp add: v cls_Domain_delete)
qed

text \<open>
  Claim C3. When the decoded value of the edge is not available in the Domain of the node,
  \<open>addEdge\<close> throws \<open>ValueNotAvailableError\<close> carrying the node and the raw value of
  the edge, and the store at the end of the call is the store at its start: neither the
  edge list nor the availability set has changed.
\<close>

theorem addEdge_unavailable:
  assumes "lookup (nodes h) n = Some (NonTerminal nd)"
    and "lookup (domains h) (nt_domain nd) = Some d"
    and "\<not> Domain_has d (getDomainValue (cls d) (edge_value e))"
  shows "NonTerminalNode_addEdge n e h =
    (Inl (ValueNotAvailableError
           (''Value '' @ edge_value e @ '' is not available in node domain ''
              @ NodeType_str (nt_type nd))
           n (StrV (edge_value e))), h)"
  using assms by (simp add: NonTerminalNode_addEdge_def ValueNotAvailableError_new_def Let_def)

text \<open>At a concrete input: a value outside the example address range.\<close>

theorem addEdge_unavailable_witness:
  "lookup (nodes example_heap) 0
     = Some (NonTerminal \<lparr>nt_type = source_ip, nt_domain = 0, edges = []\<rparr>)
   \<and> lookup (domains example_heap) 0 = Some example_range
   \<and> \<not> Domain_has example_range (getDomainValue (cls example_range) ''109.230.37.11'')
   \<and> NonTerminalNode_addEdge 0 \<lparr>source = 0, target = 1, edge_value = ''109.230.37.11''\<rparr>
        example_heap =
       (Inl (ValueNotAvailableError
               ''Value 109.230.37.11 is not available in node domain source_ip''
               0 (StrV ''109.230.37.11'')), example_heap)"
proof -
  let ?nd = "\<lparr>nt_type = source_ip, nt_domain = 0, edges = []\<rparr>"
  let ?e = "\<lparr>source = 0, target = 1, edge_value = ''109.230.37.11''\<rparr>"
  have n: "lookup (nodes example_heap) 0 = Some (NonTerminal ?nd)"
    by (simp add: example_nodes lookup_def)
  have d: "lookup (domains example_heap) (nt_domain ?nd) = Some example_range"
    by (simp add: example_domains lookup_def)
  have a: "\<not> Domain_has example_range (getDomainValue (cls example_range) (edge_value ?e))"
    by (simp add: Domain_has_def example_range_set example_range_cls enc_109_11 image_iff)
  from addEdge_unavailable [OF n d a] n d a show ?thesis
    by simp
qed

text \<open>
  Claim C4 says that decoding the encoding gives back every external value that lies within
  the range or the bounds of its Domain. A value lies within them when its encoding is
  available, and that admits other spellings of a number: \<open>080\<close> is available in the port
  range over 1 and 65535 and is decoded to \<open>80\<close>; \<open>192.168.01.10\<close> is available in the
  address range from \<open>192.168.1.1\<close> to \<open>192.168.1.255\<close> and is decoded to
  \<open>192.168.1.10\<close>.
\<close>

theorem roundtrip_fails_on_other_spellings:
  "Domain_has (PortRange_new (Num 1) (Num 65535)) (getDomainValue PortRange ''080'')
   \<and> getRangeValue PortRange (getDomainValue PortRange ''080'') = StrV ''80''
   \<and> getRangeValue PortRange (getDomainValue PortRange ''080'') \<noteq> StrV ''080''
   \<and> Domain_has (IpRange_new ''192.168.1.1'' ''192.168.1.255'')
         (getDomainValue IpRange ''192.168.01.10'')
   \<and> getRangeValue IpRange (getDomainValue IpRange ''192.168.01.10'') = StrV ''192.168.1.10''
   \<and> getRangeValue IpRange (getDomainValue IpRange ''192.168.01.10'') \<noteq> StrV ''192.168.01.10''"
proof -
  have p1: "Domain_has (PortRange_new (Num 1) (Num 65535)) (getDomainValue PortRange ''080'')"
    by (simp add: enc_port_080 Domain_has_def PortRange_new_set)
  have p2: "getRangeValue PortRange (getDomainValue PortRange ''080'') = StrV ''80''"
    by (simp add: enc_port_080 dec_port_80)
  have s: "availableValuesSet (IpRange_new ''192.168.1.1'' ''192.168.1.255'')
             = Num ` {3232235777..3232236031}"
    by (rule IpRange_new_set [OF enc_192_1 enc_192_255])
  have i1: "Domain_has (IpRange_new ''192.168.1.1'' ''192.168.1.255'')
              (getDomainValue IpRange ''192.168.01.10'')"
    by (simp add: enc_192_010 enc_192_10 Domain_has_def s)
  have i2: "getRangeValue IpRange (getDomainValue IpRange ''192.168.01.10'') = StrV ''192.168.1.10''"
    by (simp add: enc_192_010 enc_192_10 dec_192_10)
  show ?thesis
    unfolding p2 i2 using p1 i1 by simp
qed

text \<open>
  Claim C4, amended: for each of the four classes and every admissible external value of
  the class in its canonical spelling (a dotted quad of four bytes and a port written in
  decimal with no sign, leading zero, space or trailing text; a listed protocol or action
  name), decoding the encoding gives the value back.
\<close>

theorem roundtrip:
  assumes "admissible k v"
  shows "getRangeValue k (getDomainValue k v) = StrV v"
  using assms by (rule roundtrip_admissible)

text \<open>At a concrete input: the address \<open>192.168.1.10\<close>.\<close>

theorem roundtrip_witness:
  "admissible IpRange ''192.168.1.10''
   \<and> getRangeValue IpRange (getDomainValue IpRange ''192.168.1.10'') = StrV ''192.168.1.10''"
proof -
  have a: "admissible IpRange ''192.168.1.10''"
    unfolding quad_192 by (rule admissible.quad) simp_all
  from roundtrip [OF a] a show ?thesis by simp
qed

text \<open>
  Claim C5 says that two distinct external values never encode to the same integer. In
  each class two distinct strings do: two unlisted names (both -1), a port written with
  and without a leading zero, the empty string and \<open>0.0.0.0\<close>.
\<close>

theorem encoding_collides:
  "''http'' \<noteq> ''ftp'' \<and> getDomainValue Protocol ''http'' = getDomainValue Protocol ''ftp''
   \<and> ''accept'' \<noteq> ''deny'' \<and> getDomainValue Action ''accept'' = getDomainValue Action ''deny''
   \<and> ''80'' \<noteq> ''080'' \<and> getDomainValue PortRange ''80'' = getDomainValue PortRange ''080''
   \<and> ''0.0.0.0'' \<noteq> '''' \<and> getDomainValue IpRange ''0.0.0.0'' = getDomainValue IpRange ''''"
proof -
  have "getDomainValue IpRange ''0.0.0.0'' = Num 0"
    unfolding quad_zero by (simp add: IpRange_encode_quad quadValue_def)
  moreover have "getDomainValue IpRange '''' = Num 0"
    by (simp add: IpRange_getDomainValue_def parseInt_def js_shl_def js_ushr_def bits32_def)
  moreover have "getDomainValue PortRange ''80'' = getDomainValue PortRange ''080''"
    by (simp add: PortRange_getDomainValue_def parseInt_def isWhiteSpace_def digitValue_def)
  moreover have "getDomainValue Protocol ''http'' = getDomainValue Protocol ''ftp''"
    by (simp add: Protocol_getDomainValue_def indexOf_def protocolList_def)
  moreover have "getDomainValue Action ''accept'' = getDomainValue Action ''deny''"
    by (simp add: Action_getDomainValue_def indexOf_def actionList_def)
  ultimately show ?thesis by simp
qed

text \<open>
  Claim C5, amended: \<open>getDomainValue\<close> is a function of the class and the external value
  alone, and two admissible external values of one class with the same encoding are the
  same value.
\<close>

theorem encoding_injective_on_admissible:
  assumes "admissible k v" and "admissible k w"
    and "getDomainValue k v = getDomainValue k w"
  shows "v = w"
proof -
  have "StrV v = getRangeValue k (getDomainValue k v)"
    using assms(1) by (simp add: roundtrip_admissible)
  also have "\<dots> = getRangeValue k (getDomainValue k w)"
    using assms(3) by simp
  also have "\<dots> = StrV w"
    using assms(2) by (simp add: roundtrip_admissible)
  finally show ?thesis by simp
qed

text \<open>At a concrete input: \<open>tcp\<close> and \<open>udp\<close> are encoded differently.\<close>

theorem encoding_injective_on_admissible_witness:
  "admissible Protocol ''tcp'' \<and> admissible Protocol ''udp''
   \<and> getDomainValue Protocol ''tcp'' \<noteq> getDomainValue Protocol ''udp''"
proof -
  have a: "admissible Protocol ''tcp''"
    by (rule admissible.protocol_name) (simp add: protocolList_def)
  have b: "admissible Protocol ''udp''"
    by (rule admissible.protocol_name) (simp add: protocolList_def)
  have "getDomainValue Protocol ''tcp'' \<noteq> getDomainValue Protocol ''udp''"
    using encoding_injective_on_admissible [OF a b] by auto
  with a b show ?thesis by simp
qed

text \<open>
  Claim C6. The address encoding composes the four bytes of a dotted quad into one 32-bit
  unsigned number, the first byte the most significant; \<open>0.0.0.0\<close> is encoded as 0,
  \<open>255.255.255.255\<close> as 4294967295, and decoding the encoding of \<open>192.168.1.10\<close>
  gives \<open>192.168.1.10\<close>.
\<close>

theorem ip_big_endian:
  assumes "a < 256" and "b < 256" and "c < 256" and "d < 256"
  shows "IpRange_getDomainValue (dottedQuad a b c d)
           = Num (int a * 2 ^ 24 + int b * 2 ^ 16 + int c * 2 ^ 8 + int d)
    \<and> IpRange_getDomainValue ''0.0.0.0'' = Num 0
    \<and> IpRange_getDomainValue ''255.255.255.255'' = Num 4294967295
    \<and> IpRange_getRangeValue (IpRange_getDomainValue ''192.168.1.10'') = ''192.168.1.10''"
proof -
  have "IpRange_getDomainValue (dottedQuad a b c d)
           = Num (int a * 2 ^ 24 + int b * 2 ^ 16 + int c * 2 ^ 8 + int d)"
    using assms by (simp add: IpRange_encode_quad quadValue_def)
  moreover have "IpRange_getDomainValue ''0.0.0.0'' = Num 0"
    unfolding quad_zero by (simp add: IpRange_encode_quad quadValue_def)
  moreover have "IpRange_getDomainValue ''255.255.255.255'' = Num 4294967295"
    unfolding quad_ones by (simp add: IpRange_encode_quad quadValue_def)
  moreover have "IpRange_getRangeValue (IpRange_getDomainValue ''192.168.1.10'') = ''192.168.1.10''"
    unfolding quad_192 by (simp add: IpRange_encode_quad IpRange_decode_quad)
  ultimately show ?thesis by blast
qed

text \<open>At a concrete input: the bytes 192, 168, 1 and 10.\<close>

theorem ip_big_endian_witness:
  "(192::nat) < 256 \<and> (168::nat) < 256 \<and> (1::nat) < 256 \<and> (10::nat) < 256
   \<and> IpRange_getDomainValue ''192.168.1.10'' = Num 3232235786"
proof -
  have "IpRange_getDomainValue (dottedQuad 192 168 1 10)
           = Num (int 192 * 2 ^ 24 + int 168 * 2 ^ 16 + int 1 * 2 ^ 8 + int 10)"
    using ip_big_endian [of 192 168 1 10] by simp
  then show ?thesis by (simp add: quad_192)
qed

text \<open>
  Claim C7. Right after the construction of a port range over 1 and 65535, \<open>has\<close> is true
  for 1 and for 65535 and false for 0 and for 65536. In general the availability set of a
  port range built from two safe integers holds exactly the integers between them, both
  included, and that of an address range holds exactly the integers from the encoding of
  its first bound to the encoding of its last, both included.
\<close>

theorem range_population:
  assumes "isSafeInteger s" and "isSafeInteger e"
    and "IpRange_getDomainValue lo = Num a" and "IpRange_getDomainValue hi = Num b"
  shows "Domain_has (PortRange_new (Num 1) (Num 65535)) (Num 1)
    \<and> Domain_has (PortRange_new (Num 1) (Num 65535)) (Num 65535)
    \<and> \<not> Domain_has (PortRange_new (Num 1) (Num 65535)) (Num 0)
    \<and> \<not> Domain_has (PortRange_new (Num 1) (Num 65535)) (Num 65536)
    \<and> availableValuesSet (PortRange_new (Num s) (Num e)) = Num ` {s..e}
    \<and> availableValuesSet (IpRange_new lo hi) = Num ` {a..b}"
proof -
  have "availableValuesSet (IpRange_new lo hi) = Num ` {a..b}"
    using assms(3,4) by (rule IpRange_new_set)
  then show ?thesis
    by (simp add: Domain_has_def PortRange_new_set image_iff)
qed

text \<open>At a concrete input: the port range and the address range of the example.\<close>

theorem range_population_witness:
  "isSafeInteger 1 \<and> isSafeInteger 65535
   \<and> IpRange_getDomainValue ''109.230.37.1'' = Num 1843799297
   \<and> IpRange_getDomainValue ''109.230.37.10'' = Num 1843799306
   \<and> availableValuesSet (PortRange_new (Num 1) (Num 65535)) = Num ` {1..65535}
   \<and> availableValuesSet (IpRange_new ''109.230.37.1'' ''109.230.37.10'')
        = Num ` {1843799297..1843799306}"
proof -
  have s: "isSafeInteger 1" "isSafeInteger 65535" by (simp_all add: isSafeInteger_def)
  note r = range_population [OF s enc_109_1 enc_109_10]
  show ?thesis
    using s enc_109_1 enc_109_10 r by blast
qed

text \<open>
  Claim C8. The protocol enumeration lists \<open>tcp\<close>, \<open>udp\<close>, \<open>icmp\<close>, encoded as 0, 1, 2, and
  right after construction its availability set is exactly 0, 1, 2; the action
  enumeration lists \<open>allow\<close> and \<open>discard\<close>, encoded as 0 and 1, and its availability set
  is exactly 0, 1. No other name encodes to an available value.
\<close>

theorem enumerations:
  "protocolList = [''tcp'', ''udp'', ''icmp'']
   \<and> getDomainValue Protocol ''tcp'' = Num 0
   \<and> getDomainValue Protocol ''udp'' = Num 1
   \<and> getDomainValue Protocol ''icmp'' = Num 2
   \<and> availableValuesSet Protocol_new = {Num 0, Num 1, Num 2}
   \<and> {v. Domain_has Protocol_new (getDomainValue Protocol v)} = {''tcp'', ''udp'', ''icmp''}
   \<and> actionList = [''allow'', ''discard'']
   \<and> getDomainValue Action ''allow'' = Num 0
   \<and> getDomainValue Action ''discard'' = Num 1
   \<and> availableValuesSet Action_new = {Num 0, Num 1}
   \<and> {v. Domain_has Action_new (getDomainValue Action v)} = {''allow'', ''discard''}"
proof -
  have p: "{v. Domain_has Protocol_new (getDomainValue Protocol v)} = {''tcp'', ''udp'', ''icmp''}"
    by (auto simp add: Domain_has_def enum_sets Protocol_getDomainValue_def indexOf_def
        protocolList_def split: if_splits)
  have a: "{v. Domain_has Action_new (getDomainValue Action v)} = {''allow'', ''discard''}"
    by (auto simp add: Domain_has_def enum_sets Action_getDomainValue_def indexOf_def
        actionList_def split: if_splits)
  show ?thesis
    unfolding p a
    by (simp add: enum_sets Protocol_getDomainValue_def Action_getDomainValue_def indexOf_def)
      (simp add: protocolList_def actionList_def)
qed

text \<open>
  Claim C9. In a store whose Domain references are valid, constructing an action node with
  any literal only appends a fresh action Domain and the terminal node to the store; the
  literal is not validated (\<open>accept\<close> is not an available value of the action Domain, and
  the construction is the same). After any sequence of \<open>addEdge\<close> calls the terminal node
  is as it was constructed and its Domain is still the full action Domain, and \<open>addEdge\<close>
  invoked on the terminal node itself fails without changing the store.
\<close>

theorem terminal_node_inert:
  assumes "references_valid h"
  shows "ActionNode_new v h =
     (length (nodes h),
      h\<lparr>domains := domains h @ [Action_new],
        nodes := nodes h @ [Terminal \<lparr>t_type = action, t_domain = length (domains h),
                                      t_value = StrV v\<rparr>]\<rparr>)
    \<and> availableValuesSet Action_new = {Num 0, Num 1}
    \<and> \<not> Domain_has Action_new (getDomainValue Action ''accept'')
    \<and> lookup (nodes (addEdges cs (snd (ActionNode_new v h)))) (length (nodes h))
        = Some (Terminal \<lparr>t_type = action, t_domain = length (domains h), t_value = StrV v\<rparr>)
    \<and> lookup (domains (addEdges cs (snd (ActionNode_new v h)))) (length (domains h))
        = Some Action_new
    \<and> NonTerminalNode_addEdge (length (nodes h)) e (addEdges cs (snd (ActionNode_new v h)))
        = (Inl TypeError, addEdges cs (snd (ActionNode_new v h)))"
proof -
  let ?t = "\<lparr>t_type = action, t_domain = length (domains h), t_value = StrV v\<rparr>"
  let ?h0 = "snd (ActionNode_new v h)"
  have t0: "lookup (nodes ?h0) (length (nodes h)) = Some (Terminal ?t)"
    by (simp add: ActionNode_new_heap lookup_def)
  have d0: "lookup (domains ?h0) (length (domains h)) = Some Action_new"
    by (simp add: ActionNode_new_heap lookup_def)
  have none: "\<forall>m nd. lookup (nodes ?h0) m = Some (NonTerminal nd)
                \<longrightarrow> nt_domain nd \<noteq> length (domains h)"
  proof (intro allI impI)
    fix m nd
    assume a: "lookup (nodes ?h0) m = Some (NonTerminal nd)"
    then have "m < length (nodes h) \<and> nodes h ! m = NonTerminal nd"
      by (auto simp add: ActionNode_new_heap lookup_def nth_append split: if_splits)
    with references_valid_nth [OF assms, of m] show "nt_domain nd \<noteq> length (domains h)"
      by simp
  qed
  have t: "lookup (nodes (addEdges cs ?h0)) (length (nodes h)) = Some (Terminal ?t)"
    by (rule addEdges_terminal [OF t0])
  have d: "lookup (domains (addEdges cs ?h0)) (length (domains h)) = Some Action_new"
    using addEdges_domain_untouched [OF none, of cs] d0 by simp
  have acc: "\<not> Domain_has Action_new (getDomainValue Action ''accept'')"
    by (simp add: Domain_has_def enum_sets Action_getDomainValue_def indexOf_def actionList_def)
  show ?thesis
    using t d acc addEdge_on_terminal [OF t, of e]
    by (simp add: ActionNode_new_heap enum_sets)
qed

text \<open>At a concrete input: a second action node added to the example graph.\<close>

theorem terminal_node_inert_witness:
  "references_valid example_heap
   \<and> ActionNode_new ''discard'' example_heap =
       (3, example_heap\<lparr>domains := domains example_heap @ [Action_new],
             nodes := nodes example_heap @
               [Terminal \<lparr>t_type = action, t_domain = 3, t_value = StrV ''discard''\<rparr>]\<rparr>)
   \<and> lookup (nodes (addEdges [(1, \<lparr>source = 1, target = 2, edge_value = ''tcp''\<rparr>)]
                      (snd (ActionNode_new ''discard'' example_heap)))) 3
        = Some (Terminal \<lparr>t_type = action, t_domain = 3, t_value = StrV ''discard''\<rparr>)
   \<and> lookup (domains (addEdges [(1, \<lparr>source = 1, target = 2, edge_value = ''tcp''\<rparr>)]
                        (snd (ActionNode_new ''discard'' example_heap)))) 3
        = Some Action_new
   \<and> NonTerminalNode_addEdge 3 \<lparr>source = 3, target = 0, edge_value = ''discard''\<rparr>
         (addEdges [(1, \<lparr>source = 1, target = 2, edge_value = ''tcp''\<rparr>)]
            (snd (ActionNode_new ''discard'' example_heap)))
        = (Inl TypeError,
           addEdges [(1, \<lparr>source = 1, target = 2, edge_value = ''tcp''\<rparr>)]
             (snd (ActionNode_new ''discard'' example_heap)))"
proof -
  have l: "length (nodes example_heap) = 3" "length (domains example_heap) = 3"
    by (simp_all add: example_nodes example_domains)
  note r = terminal_node_inert [OF example_valid, of "''discard''"
      "[(1, \<lparr>source = 1, target = 2, edge_value = ''tcp''\<rparr>)]"
      "\<lparr>source = 3, target = 0, edge_value = ''discard''\<rparr>", unfolded l]
  show ?thesis
    using r example_valid by blast
qed

text \<open>
  Claim C10. A non-terminal node stands on a protocol or action Domain, as constructed or
  after deletions. Then, after any sequence of \<open>addEdge\<close> calls, an edge whose value is
  not a listed name is rejected: its value encodes to -1, -1 is not in the availability
  set of the Domain, and \<open>addEdge\<close> throws \<open>ValueNotAvailableError\<close> and leaves the store
  as it was.
\<close>

theorem enumeration_rejects_unlisted:
  assumes "lookup (nodes h) n = Some (NonTerminal nd)"
    and "lookup (domains h) (nt_domain nd) = Some d"
    and "shrunk_from d Protocol_new \<or> shrunk_from d Action_new"
    and "edge_value e \<notin> set (listedNames (cls d))"
  shows "getDomainValue (cls d) (edge_value e) = Num (- 1)
    \<and> (\<exists>d'. lookup (domains (addEdges cs h)) (nt_domain nd) = Some d' \<and> cls d' = cls d
          \<and> \<not> Domain_has d' (Num (- 1)))
    \<and> NonTerminalNode_addEdge n e (addEdges cs h) =
        (Inl (ValueNotAvailableError
               (''Value '' @ edge_value e @ '' is not available in node domain ''
                  @ NodeType_str (nt_type nd))
               n (StrV (edge_value e))), addEdges cs h)"
proof -
  have k: "cls d = Protocol \<or> cls d = Action"
    using assms(3) by (auto simp add: shrunk_from_def enum_cls)
  have v: "getDomainValue (cls d) (edge_value e) = Num (- 1)"
    using unlisted_encodes_minus_1 [OF assms(4) k] .
  have m: "Num (- 1) \<notin> availableValuesSet d"
    using assms(3) by (auto simp add: shrunk_from_def enum_sets)
  from addEdges_nonterminal [OF assms(1), of cs] obtain nd' where
    nd': "lookup (nodes (addEdges cs h)) n = Some (NonTerminal nd')"
      "nt_domain nd' = nt_domain nd" "nt_type nd' = nt_type nd"
    by blast
  from addEdges_domain [OF assms(2), of cs] obtain d' where
    d': "lookup (domains (addEdges cs h)) (nt_domain nd) = Some d'"
      "cls d' = cls d" "availableValuesSet d' \<subseteq> availableValuesSet d"
    by blast
  have no: "\<not> Domain_has d' (Num (- 1))"
    using m d'(3) by (auto simp add: Domain_has_def)
  have "\<not> Domain_has d' (getDomainValue (cls d') (edge_value e))"
    using no v d'(2) by simp
  from addEdge_throws [OF nd'(1) _ this] d'(1) nd'(2,3)
  have "NonTerminalNode_addEdge n e (addEdges cs h) =
        (Inl (ValueNotAvailableError
               (''Value '' @ edge_value e @ '' is not available in node domain ''
                  @ NodeType_str (nt_type nd))
               n (StrV (edge_value e))), addEdges cs h)"
    by simp
  with v d'(1,2) no show ?thesis by blast
qed

text \<open>At a concrete input: the protocol node of the example and the name \<open>http\<close>.\<close>

theorem enumeration_rejects_unlisted_witness:
  "lookup (nodes example_heap) 1
     = Some (NonTerminal \<lparr>nt_type = protocol, nt_domain = 1, edges = []\<rparr>)
   \<and> lookup (domains example_heap) 1 = Some Protocol_new
   \<and> shrunk_from Protocol_new Protocol_new
   \<and> ''http'' \<notin> set (listedNames (cls Protocol_new))
   \<and> getDomainValue Protocol ''http'' = Num (- 1)
   \<and> NonTerminalNode_addEdge 1 \<lparr>source = 1, target = 2, edge_value = ''http''\<rparr>
        (addEdges [(1, \<lparr>source = 1, target = 2, edge_value = ''tcp''\<rparr>)] example_heap)
      = (Inl (ValueNotAvailableError ''Value http is not available in node domain protocol''
               1 (StrV ''http'')),
         addEdges [(1, \<lparr>source = 1, target = 2, edge_value = ''tcp''\<rparr>)] example_heap)"
proof -
  let ?nd = "\<lparr>nt_type = protocol, nt_domain = 1, edges = []\<rparr>"
  let ?e = "\<lparr>source = 1, target = 2, edge_value = ''http''\<rparr>"
  have n: "lookup (nodes example_heap) 1 = Some (NonTerminal ?nd)"
    by (simp add: example_nodes lookup_def)
  have d: "lookup (domains example_heap) (nt_domain ?nd) = Some Protocol_new"
    by (simp add: example_domains lookup_def)
  have s: "shrunk_from Protocol_new Protocol_new" by (simp add: shrunk_from_def)
  then have k: "shrunk_from Protocol_new Protocol_new \<or> shrunk_from Protocol_new Action_new"
    by simp
  have u: "edge_value ?e \<notin> set (listedNames (cls Protocol_new))"
    by (simp add: enum_cls protocolList_def)
  from enumeration_rejects_unlisted [OF n d k u,
      of "[(1, \<lparr>source = 1, target = 2, edge_value = ''tcp''\<rparr>)]"] n d s u
  show ?thesis
    by (simp add: enum_cls)
qed

end
